theory Spec2Isabelle
  imports Complex_Main "HOL-Library.Sublist" "HOL-Library.AList"
begin

section \<open>Python values and the built-in conversions\<close>

text \<open>
  The values that travel through the hub are the scalars of JSON: \<open>None\<close>, booleans,
  unbounded integers, floats and strings. The float carrier is the type parameter \<open>'f\<close>:
  the operations of Python's \<open>float\<close> that the code relies on are the fields of
  \<open>pyops\<close>, so that nothing is assumed about rounding, NaN or infinities.
\<close>

datatype 'f pyval = VNone | VBool bool | VInt int | VFloat 'f | VStr string

datatype error = TypeError | ValueError | OverflowError | RuntimeError

record 'f pyops =
  str_to_int :: "string \<Rightarrow> int option"
  str_to_float :: "string \<Rightarrow> 'f option"
  int_to_float :: "int \<Rightarrow> 'f option"
  float_to_int :: "'f \<Rightarrow> error + int"
  float_lt :: "'f \<Rightarrow> 'f \<Rightarrow> bool"
  float_lt_int :: "'f \<Rightarrow> int \<Rightarrow> bool"
  int_lt_float :: "int \<Rightarrow> 'f \<Rightarrow> bool"
  float_eq :: "'f \<Rightarrow> 'f \<Rightarrow> bool"
  float_eq_int :: "'f \<Rightarrow> int \<Rightarrow> bool"
  float_truth :: "'f \<Rightarrow> bool"
  float_repr :: "'f \<Rightarrow> string"


text \<open>\<open>int(value)\<close>, \<open>float(value)\<close>: a conversion that raises is \<open>Inl\<close>.\<close>

fun py_int :: "'f pyops \<Rightarrow> 'f pyval \<Rightarrow> error + int" where
  "py_int ops VNone = Inl TypeError"
| "py_int ops (VBool b) = Inr (if b then 1 else 0)"
| "py_int ops (VInt i) = Inr i"
| "py_int ops (VFloat f) = float_to_int ops f"
| "py_int ops (VStr s) = (case str_to_int ops s of None \<Rightarrow> Inl ValueError | Some i \<Rightarrow> Inr i)"

fun py_float :: "'f pyops \<Rightarrow> 'f pyval \<Rightarrow> error + 'f" where
  "py_float ops VNone = Inl TypeError"
| "py_float ops (VBool b) =
     (case int_to_float ops (if b then 1 else 0) of None \<Rightarrow> Inl OverflowError | Some f \<Rightarrow> Inr f)"
| "py_float ops (VInt i) =
     (case int_to_float ops i of None \<Rightarrow> Inl OverflowError | Some f \<Rightarrow> Inr f)"
| "py_float ops (VFloat f) = Inr f"
| "py_float ops (VStr s) =
     (case str_to_float ops s of None \<Rightarrow> Inl ValueError | Some f \<Rightarrow> Inr f)"

text \<open>\<open>bool(value)\<close>, the truth value of an object.\<close>

fun py_bool :: "'f pyops \<Rightarrow> 'f pyval \<Rightarrow> bool" where
  "py_bool ops VNone = False"
| "py_bool ops (VBool b) = b"
| "py_bool ops (VInt i) = (i \<noteq> 0)"
| "py_bool ops (VFloat f) = float_truth ops f"
| "py_bool ops (VStr s) = (s \<noteq> [])"

text \<open>\<open>str.lower()\<close> on the ASCII letters; the other bytes are left as they are.\<close>

definition lower_char :: "char \<Rightarrow> char" where
  "lower_char c =
     (let n = of_char c :: nat in if 65 \<le> n \<and> n \<le> 90 then char_of (n + 32) else c)"

definition lower :: "string \<Rightarrow> string" where
  "lower s = map lower_char s"

text \<open>\<open>str(n)\<close> for an integer: the decimal digits, with a minus sign.\<close>

function nat_digits :: "nat \<Rightarrow> string" where
  "nat_digits n =
     (if n < 10 then [char_of (48 + n)] else nat_digits (n div 10) @ [char_of (48 + n mod 10)])"
  by pat_completeness auto
termination
  by (relation "measure id") auto

definition int_repr :: "int \<Rightarrow> string" where
  "int_repr i = (if i < 0 then CHR ''-'' # nat_digits (nat (- i)) else nat_digits (nat i))"

fun py_str :: "'f pyops \<Rightarrow> 'f pyval \<Rightarrow> string" where
  "py_str ops VNone = ''None''"
| "py_str ops (VBool b) = (if b then ''True'' else ''False'')"
| "py_str ops (VInt i) = int_repr i"
| "py_str ops (VFloat f) = float_repr ops f"
| "py_str ops (VStr s) = s"

text \<open>
  \<open>a == b\<close> on the scalars: booleans are the integers 0 and 1, numbers compare across
  \<open>int\<close> and \<open>float\<close>, and values of unrelated types are different.
\<close>

fun py_eq :: "'f pyops \<Rightarrow> 'f pyval \<Rightarrow> 'f pyval \<Rightarrow> bool" where
  "py_eq ops VNone VNone = True"
| "py_eq ops (VBool a) (VBool b) = (a = b)"
| "py_eq ops (VBool a) (VInt b) = ((if a then 1 else 0) = b)"
| "py_eq ops (VInt a) (VBool b) = (a = (if b then 1 else 0))"
| "py_eq ops (VInt a) (VInt b) = (a = b)"
| "py_eq ops (VBool a) (VFloat b) = float_eq_int ops b (if a then 1 else 0)"
| "py_eq ops (VFloat a) (VBool b) = float_eq_int ops a (if b then 1 else 0)"
| "py_eq ops (VInt a) (VFloat b) = float_eq_int ops b a"
| "py_eq ops (VFloat a) (VInt b) = float_eq_int ops a b"
| "py_eq ops (VFloat a) (VFloat b) = float_eq ops a b"
| "py_eq ops (VStr a) (VStr b) = (a = b)"
| "py_eq ops _ _ = False"

definition py_ne :: "'f pyops \<Rightarrow> 'f pyval \<Rightarrow> 'f pyval \<Rightarrow> bool" where
  "py_ne ops a b = (\<not> py_eq ops a b)"

text \<open>
  The fields \<open>min_val\<close>, \<open>max_val\<close> and \<open>default_val\<close> of a \<open>FloatParameter\<close> are
  annotated \<open>float\<close>, and nothing converts them: they hold the object they were given,
  an \<open>int\<close> or a \<open>float\<close>. Python compares the two kinds of number with each other.
\<close>

datatype 'f number = NInt int | NFloat 'f

fun num_val :: "'f number \<Rightarrow> 'f pyval" where
  "num_val (NInt i) = VInt i"
| "num_val (NFloat f) = VFloat f"

fun num_lt :: "'f pyops \<Rightarrow> 'f number \<Rightarrow> 'f number \<Rightarrow> bool" where
  "num_lt ops (NInt a) (NInt b) = (a < b)"
| "num_lt ops (NInt a) (NFloat b) = int_lt_float ops a b"
| "num_lt ops (NFloat a) (NInt b) = float_lt_int ops a b"
| "num_lt ops (NFloat a) (NFloat b) = float_lt ops a b"

text \<open>
  The two-argument \<open>min(a, b)\<close> and \<open>max(a, b)\<close> of Python return the first argument
  unless the second is strictly smaller (\<open>b < a\<close>), respectively strictly larger
  (\<open>b > a\<close>); they return the object itself, whatever its type.
\<close>

definition num_min :: "'f pyops \<Rightarrow> 'f number \<Rightarrow> 'f number \<Rightarrow> 'f number" where
  "num_min ops a b = (if num_lt ops b a then b else a)"

definition num_max :: "'f pyops \<Rightarrow> 'f number \<Rightarrow> 'f number \<Rightarrow> 'f number" where
  "num_max ops a b = (if num_lt ops a b then b else a)"

section \<open>The parameter model (components/base.py)\<close>

datatype ParameterType = T_INT | T_FLOAT | T_BOOL | T_STRING

fun ParameterType_value :: "ParameterType \<Rightarrow> string" where
  "ParameterType_value T_INT = ''int''"
| "ParameterType_value T_FLOAT = ''float''"
| "ParameterType_value T_BOOL = ''bool''"
| "ParameterType_value T_STRING = ''str''"

text \<open>
  The four dataclasses \<open>IntParameter\<close>, \<open>FloatParameter\<close>, \<open>BoolParameter\<close> and
  \<open>StringParameter\<close> extend \<open>BaseParameter\<close> by their own fields: the numeric ones by
  \<open>min_val\<close>, \<open>max_val\<close> and \<open>default_val\<close>, the other two by \<open>default_val\<close>.
\<close>

datatype 'f pclass =
    IntP int int int
  | FloatP "'f number" "'f number" "'f number"
  | BoolP bool
  | StringP string

type_synonym cb = nat

record 'f BaseParameter =
  name :: string
  param_id :: int
  rows :: int
  cols :: int
  read_only :: bool
  values_map :: "(int \<times> int) \<rightharpoonup> 'f pyval"
  on_change_callbacks :: "cb list"
  pclass :: "'f pclass"

fun param_type :: "'f pclass \<Rightarrow> ParameterType" where
  "param_type (IntP _ _ _) = T_INT"
| "param_type (FloatP _ _ _) = T_FLOAT"
| "param_type (BoolP _) = T_BOOL"
| "param_type (StringP _) = T_STRING"

fun default_val :: "'f pclass \<Rightarrow> 'f pyval" where
  "default_val (IntP _ _ d) = VInt d"
| "default_val (FloatP _ _ d) = num_val d"
| "default_val (BoolP d) = VBool d"
| "default_val (StringP d) = VStr d"

text \<open>\<open>self._values.get((row, col))\<close>: a missing key reads as \<open>None\<close>.\<close>

definition get_value :: "'f BaseParameter \<Rightarrow> int \<Rightarrow> int \<Rightarrow> 'f pyval" where
  "get_value p row col = (case values_map p (row, col) of None \<Rightarrow> VNone | Some v \<Rightarrow> v)"

text \<open>
  \<open>__post_init__\<close>: the two nested loops over \<open>range(rows)\<close> and \<open>range(cols)\<close> that
  give every cell not yet in the dictionary the default value.
\<close>

fun init_row :: "int \<Rightarrow> 'f pyval \<Rightarrow> int list \<Rightarrow> ((int \<times> int) \<rightharpoonup> 'f pyval) \<Rightarrow> ((int \<times> int) \<rightharpoonup> 'f pyval)" where
  "init_row r d [] m = m"
| "init_row r d (c # cs) m =
     init_row r d cs (if m (r, c) \<noteq> None then m else m((r, c) \<mapsto> d))"

fun init_rows :: "int list \<Rightarrow> int list \<Rightarrow> 'f pyval \<Rightarrow> ((int \<times> int) \<rightharpoonup> 'f pyval) \<Rightarrow> ((int \<times> int) \<rightharpoonup> 'f pyval)" where
  "init_rows [] cs d m = m"
| "init_rows (r # rs) cs d m = init_rows rs cs d (init_row r d cs m)"

definition post_init :: "'f BaseParameter \<Rightarrow> 'f BaseParameter" where
  "post_init p =
     p\<lparr>values_map := init_rows [0..rows p - 1] [0..cols p - 1] (default_val (pclass p)) (values_map p)\<rparr>"

text \<open>
  The dataclass constructor as the \<open>add_*_param\<close> methods call it: \<open>_values\<close> and
  \<open>_on_change_callbacks\<close> start empty, then \<open>__post_init__\<close> runs.
\<close>

definition new_parameter :: "string \<Rightarrow> int \<Rightarrow> int \<Rightarrow> int \<Rightarrow> bool \<Rightarrow> 'f pclass \<Rightarrow> 'f BaseParameter" where
  "new_parameter nm pid rs cs ro k =
     post_init \<lparr>name = nm, param_id = pid, rows = rs, cols = cs, read_only = ro,
       values_map = Map.empty, on_change_callbacks = [], pclass = k\<rparr>"

text \<open>
  The first lines of the four \<open>set_value\<close> overrides: the conversion to the declared
  type and, for the numeric types, \<open>max(min_val, min(max_val, value))\<close>.
\<close>

fun coerce :: "'f pyops \<Rightarrow> 'f pclass \<Rightarrow> 'f pyval \<Rightarrow> error + 'f pyval" where
  "coerce ops (IntP lo hi _) v =
     (case py_int ops v of Inl e \<Rightarrow> Inl e | Inr i \<Rightarrow> Inr (VInt (max lo (min hi i))))"
| "coerce ops (FloatP lo hi _) v =
     (case py_float ops v of Inl e \<Rightarrow> Inl e
      | Inr f \<Rightarrow> Inr (num_val (num_max ops lo (num_min ops hi (NFloat f)))))"
| "coerce ops (BoolP _) v =
     (case v of VStr s \<Rightarrow> Inr (VBool (lower s \<in> {''true'', ''1'', ''yes''}))
      | _ \<Rightarrow> Inr (VBool (py_bool ops v)))"
| "coerce ops (StringP _) v = (case v of VNone \<Rightarrow> Inr (VStr []) | _ \<Rightarrow> Inr (VStr (py_str ops v)))"


section \<open>Change notification\<close>

text \<open>
  Parameter objects are shared: a component holds the same object under its name and
  under its id, and bound methods registered as callbacks reach the parameters of
  their component. The objects therefore live in a store, addressed by references.
  A callback is known by an identifier; what it does when called is given by a
  behaviour, a function from the arguments of the call to the operations it performs
  on the parameter API, in order. The store also holds the effects that leave the
  parameter model: the tasks handed to the event loop and the errors logged.
\<close>

type_synonym ref = nat

datatype 'f event =
    ExecuteAction int
  | BroadcastUpdate int int int "'f pyval"
  | External nat

datatype 'f op =
    SetValue ref int int "'f pyval" bool
  | OnChange ref cb
  | Emit "'f event"
  | Raise error

type_synonym 'f behaviour =
  "cb \<Rightarrow> 'f BaseParameter \<Rightarrow> int \<Rightarrow> int \<Rightarrow> 'f pyval \<Rightarrow> 'f pyval \<Rightarrow> 'f op list"

type_synonym 'f invocation = "cb \<times> int \<times> int \<times> 'f pyval \<times> 'f pyval"

record 'f world =
  store :: "ref \<rightharpoonup> 'f BaseParameter"
  next_ref :: ref
  next_param_id :: int
  events :: "'f event list"
  logged_errors :: nat

definition put_param :: "'f world \<Rightarrow> ref \<Rightarrow> 'f BaseParameter \<Rightarrow> 'f world" where
  "put_param w r p = w\<lparr>store := (store w)(r \<mapsto> p)\<rparr>"

text \<open>\<open>on_change\<close>: append the callback to the list of the parameter.\<close>

definition on_change :: "'f world \<Rightarrow> ref \<Rightarrow> cb \<Rightarrow> 'f world option" where
  "on_change w r c =
     (case store w r of None \<Rightarrow> None
      | Some p \<Rightarrow> Some (put_param w r (p\<lparr>on_change_callbacks := on_change_callbacks p @ [c]\<rparr>)))"

text \<open>
  \<open>BaseParameter.set_value\<close>, the loop \<open>for callback in self._on_change_callbacks\<close>
  and the execution of a callback. The loop of Python reads the list it iterates at
  every step, by position, so it is written with the position \<open>i\<close> and looks the list up
  in the store each time round. A callback can write to a parameter with
  notification, and register callbacks, so the loop need not end: the first argument
  bounds the number of callback calls, and \<open>None\<close> is the run that exceeds it. A
  reference that the store does not hold gives \<open>None\<close> as well. An exception out of a
  callback is caught by the loop and logged; the loop goes on with the next callback.
  Besides the world, \<open>base_set_value\<close> and \<open>notify_loop\<close> return the calls this very
  loop made, in order.
\<close>

function (sequential) base_set_value :: "nat \<Rightarrow> 'f pyops \<Rightarrow> 'f behaviour \<Rightarrow> 'f world \<Rightarrow> ref \<Rightarrow> int \<Rightarrow> int \<Rightarrow> 'f pyval \<Rightarrow> bool
      \<Rightarrow> ('f world \<times> 'f invocation list) option"
  and notify_loop :: "nat \<Rightarrow> 'f pyops \<Rightarrow> 'f behaviour \<Rightarrow> 'f world \<Rightarrow> ref \<Rightarrow> int \<Rightarrow> int \<Rightarrow> 'f pyval \<Rightarrow> 'f pyval \<Rightarrow> nat
      \<Rightarrow> ('f world \<times> 'f invocation list) option"
  and run_ops :: "nat \<Rightarrow> 'f pyops \<Rightarrow> 'f behaviour \<Rightarrow> 'f world \<Rightarrow> 'f op list
      \<Rightarrow> ('f world \<times> error option) option"
where
  "base_set_value n ops beh w r row col value notify =
     (case store w r of None \<Rightarrow> None
      | Some p \<Rightarrow>
          let old_value = get_value p row col;
              w1 = put_param w r (p\<lparr>values_map := (values_map p)((row, col) \<mapsto> value)\<rparr>)
          in if notify \<and> py_ne ops old_value value
             then notify_loop n ops beh w1 r row col value old_value 0
             else Some (w1, []))"
| "notify_loop 0 ops beh w r row col value old_value i = None"
| "notify_loop (Suc n) ops beh w r row col value old_value i =
     (case store w r of None \<Rightarrow> None
      | Some p \<Rightarrow>
          if i < length (on_change_callbacks p) then
            let callback = on_change_callbacks p ! i in
            (case run_ops n ops beh w (beh callback p row col value old_value) of
               None \<Rightarrow> None
             | Some (w', exc) \<Rightarrow>
                 let w'' = (case exc of None \<Rightarrow> w'
                            | Some e \<Rightarrow> w'\<lparr>logged_errors := logged_errors w' + 1\<rparr>)
                 in (case notify_loop n ops beh w'' r row col value old_value (i + 1) of
                       None \<Rightarrow> None
                     | Some (w3, invs) \<Rightarrow>
                         Some (w3, (callback, row, col, value, old_value) # invs)))
          else Some (w, []))"
| "run_ops n ops beh w [] = Some (w, None)"
| "run_ops n ops beh w (SetValue r row col v notify # xs) =
     (case store w r of None \<Rightarrow> None
      | Some p \<Rightarrow>
          (case coerce ops (pclass p) v of
             Inl e \<Rightarrow> Some (w, Some e)
           | Inr v' \<Rightarrow>
               (case base_set_value n ops beh w r row col v' notify of
                  None \<Rightarrow> None
                | Some (w', invs) \<Rightarrow> run_ops n ops beh w' xs)))"
| "run_ops n ops beh w (OnChange r c # xs) =
     (case on_change w r c of None \<Rightarrow> None | Some w' \<Rightarrow> run_ops n ops beh w' xs)"
| "run_ops n ops beh w (Emit e # xs) = run_ops n ops beh (w\<lparr>events := events w @ [e]\<rparr>) xs"
| "run_ops n ops beh w (Raise e # xs) = Some (w, Some e)"
  by pat_completeness auto
termination
  by (relation "measures [
      (\<lambda>x. case x of Inl (n, _) \<Rightarrow> n | Inr (Inl (n, _)) \<Rightarrow> n | Inr (Inr (n, _)) \<Rightarrow> n),
      (\<lambda>x. case x of Inl _ \<Rightarrow> 1 | Inr (Inl _) \<Rightarrow> 0 | Inr (Inr _) \<Rightarrow> 2),
      (\<lambda>x. case x of Inl _ \<Rightarrow> 0 | Inr (Inl _) \<Rightarrow> 0
         | Inr (Inr (n, ops, beh, w, xs)) \<Rightarrow> length xs)]") auto

text \<open>
  \<open>set_value\<close> as the four subclasses override it: convert (and clamp), then call
  \<open>super().set_value\<close>. A conversion that raises leaves the parameter as it was.
\<close>

definition set_value :: "nat \<Rightarrow> 'f pyops \<Rightarrow> 'f behaviour \<Rightarrow> 'f world \<Rightarrow> ref \<Rightarrow> int \<Rightarrow> int \<Rightarrow> 'f pyval \<Rightarrow> bool
      \<Rightarrow> (error + 'f world \<times> 'f invocation list) option" where
  "set_value n ops beh w r row col value notify =
     (case store w r of None \<Rightarrow> None
      | Some p \<Rightarrow>
          (case coerce ops (pclass p) value of
             Inl e \<Rightarrow> Some (Inl e)
           | Inr v \<Rightarrow> map_option Inr (base_set_value n ops beh w r row col v notify)))"

section \<open>Components (components/base.py)\<close>

text \<open>
  A component holds its parameters in two dictionaries, by name and by id. Python
  dictionaries keep insertion order, and \<open>get_param_by_type_and_index\<close> depends on it,
  so they are association lists: an assignment to a new key appends, an assignment to
  a key that is there replaces the value in place.
\<close>

record Component =
  comp_name :: string
  parameters :: "(string \<times> ref) list"
  params_by_id :: "(int \<times> ref) list"

definition new_component :: "string \<Rightarrow> Component" where
  "new_component nm = \<lparr>comp_name = nm, parameters = [], params_by_id = []\<rparr>"

text \<open>
  The four \<open>add_*_param\<close> methods differ in the class they build only. Each takes the
  next id from the class-level counter \<open>Component._next_param_id\<close>, builds the
  parameter and enters it in both dictionaries.
\<close>

definition add_param :: "string \<Rightarrow> int \<Rightarrow> int \<Rightarrow> 'f pclass \<Rightarrow> bool \<Rightarrow> 'f world \<times> Component
      \<Rightarrow> ('f world \<times> Component) \<times> ref" where
  "add_param nm rs cs k ro st =
     (let w = fst st; cmpt = snd st;
          pid = next_param_id w;
          r = next_ref w;
          param = new_parameter nm pid rs cs ro k;
          w' = w\<lparr>store := (store w)(r \<mapsto> param), next_ref := r + 1, next_param_id := pid + 1\<rparr>;
          cmpt' = cmpt\<lparr>parameters := AList.update nm r (parameters cmpt),
                       params_by_id := AList.update pid r (params_by_id cmpt)\<rparr>
      in ((w', cmpt'), r))"

definition add_int_param :: "string \<Rightarrow> int \<Rightarrow> int \<Rightarrow> int \<Rightarrow> int \<Rightarrow> int \<Rightarrow> bool \<Rightarrow> 'f world \<times> Component
      \<Rightarrow> ('f world \<times> Component) \<times> ref" where
  "add_int_param nm rs cs min_val max_val dflt ro = add_param nm rs cs (IntP min_val max_val dflt) ro"

definition add_float_param :: "string \<Rightarrow> int \<Rightarrow> int \<Rightarrow> 'f number \<Rightarrow> 'f number \<Rightarrow> 'f number \<Rightarrow> bool \<Rightarrow> 'f world \<times> Component
      \<Rightarrow> ('f world \<times> Component) \<times> ref" where
  "add_float_param nm rs cs min_val max_val dflt ro = add_param nm rs cs (FloatP min_val max_val dflt) ro"

definition add_bool_param :: "string \<Rightarrow> int \<Rightarrow> int \<Rightarrow> bool \<Rightarrow> bool \<Rightarrow> 'f world \<times> Component
      \<Rightarrow> ('f world \<times> Component) \<times> ref" where
  "add_bool_param nm rs cs dflt ro = add_param nm rs cs (BoolP dflt) ro"

definition add_string_param :: "string \<Rightarrow> int \<Rightarrow> int \<Rightarrow> string \<Rightarrow> bool \<Rightarrow> 'f world \<times> Component
      \<Rightarrow> ('f world \<times> Component) \<times> ref" where
  "add_string_param nm rs cs dflt ro = add_param nm rs cs (StringP dflt) ro"

definition get_param :: "Component \<Rightarrow> string \<Rightarrow> ref option" where
  "get_param cmpt nm = map_of (parameters cmpt) nm"

definition get_param_by_id :: "Component \<Rightarrow> int \<Rightarrow> ref option" where
  "get_param_by_id cmpt pid = map_of (params_by_id cmpt) pid"

definition type_map :: "string \<rightharpoonup> ParameterType" where
  "type_map = map_of [(''int'', T_INT), (''float'', T_FLOAT), (''bool'', T_BOOL),
     (''str'', T_STRING), (''string'', T_STRING)]"

text \<open>
  The loop of \<open>get_param_by_type_and_index\<close> over \<open>self.parameters.values()\<close>, with
  its counter.
\<close>

fun find_typed :: "'f world \<Rightarrow> ParameterType \<Rightarrow> int \<Rightarrow> int \<Rightarrow> ref list \<Rightarrow> ref option" where
  "find_typed w target idx count [] = None"
| "find_typed w target idx count (r # rs) =
     (case store w r of
        None \<Rightarrow> find_typed w target idx count rs
      | Some param \<Rightarrow>
          if param_type (pclass param) = target
          then (if count = idx then Some r else find_typed w target idx (count + 1) rs)
          else find_typed w target idx count rs)"

definition get_param_by_type_and_index :: "'f world \<Rightarrow> Component \<Rightarrow> string \<Rightarrow> int \<Rightarrow> ref option" where
  "get_param_by_type_and_index w cmpt ptype idx =
     (case type_map (lower ptype) of
        None \<Rightarrow> None
      | Some target \<Rightarrow> find_typed w target idx 0 (map snd (parameters cmpt)))"

section \<open>The protocol server (components/web_server.py)\<close>

text \<open>
  The hub as the handlers see it: the world of parameters and the dictionary
  \<open>local_components\<close>. A request is the JSON object received, read through the keys
  the handlers use; the model takes the fields with the types the protocol gives
  them, \<open>None\<close> for a key that is absent. \<open>value\<close> is any scalar, \<open>VNone\<close> when absent
  or null.
\<close>

record 'f CentralHub =
  hub_world :: "'f world"
  local_components :: "(string \<times> Component) list"

record 'f request =
  req_type :: "string option"
  req_param_id :: "int option"
  req_comp :: "string option"
  req_param :: "string option"
  req_param_type :: "string option"
  req_idx :: "int option"
  req_row :: "int option"
  req_col :: "int option"
  req_value :: "'f pyval"

text \<open>
  A response is a JSON object with scalar values. \<open>SetFailed e\<close> stands for
  \<open>{'success': False, 'error': str(e)}\<close>, the text of the exception left out.
  \<open>OtherBranch\<close> is the answer of the branches that are not part of this model
  (\<open>get_components\<close>, \<open>get_component_params\<close>, \<open>subscribe\<close>, \<open>unsubscribe\<close>).
\<close>

datatype 'f response =
    Json "(string \<times> 'f pyval) list"
  | SetFailed error
  | OtherBranch

definition truthy :: "string option \<Rightarrow> bool" where
  "truthy s = (case s of None \<Rightarrow> False | Some t \<Rightarrow> t \<noteq> [])"

text \<open>
  The loop \<open>for comp in self.hub.local_components.values(): param =
  comp.get_param_by_id(param_id); if param: break\<close>.
\<close>

fun find_by_id :: "Component list \<Rightarrow> int \<Rightarrow> ref option" where
  "find_by_id [] pid = None"
| "find_by_id (cmpt # comps) pid =
     (case get_param_by_id cmpt pid of Some r \<Rightarrow> Some r | None \<Rightarrow> find_by_id comps pid)"

text \<open>The three ways to name a parameter, as \<open>get_param\<close> and \<open>set_param\<close> try them in turn.\<close>

definition lookup_param :: "'f CentralHub \<Rightarrow> 'f request \<Rightarrow> ref option" where
  "lookup_param hub req =
     (case req_param_id req of
        Some pid \<Rightarrow> find_by_id (map snd (local_components hub)) pid
      | None \<Rightarrow>
          if truthy (req_comp req) \<and> truthy (req_param req) then
            (case map_of (local_components hub) (the (req_comp req)) of
               None \<Rightarrow> None
             | Some cmpt \<Rightarrow> get_param cmpt (the (req_param req)))
          else if truthy (req_comp req) \<and> req_param_type req \<noteq> None \<and> req_idx req \<noteq> None then
            (case map_of (local_components hub) (the (req_comp req)) of
               None \<Rightarrow> None
             | Some cmpt \<Rightarrow>
                 get_param_by_type_and_index (hub_world hub) cmpt
                   (the (req_param_type req)) (the (req_idx req)))
          else None)"

text \<open>The metadata of a parameter as \<open>get_param_info\<close> answers it.\<close>

definition param_info :: "'f BaseParameter \<Rightarrow> (string \<times> 'f pyval) list" where
  "param_info p =
     [(''name'', VStr (name p)), (''param_id'', VInt (param_id p)),
      (''type'', VStr (ParameterType_value (param_type (pclass p)))),
      (''rows'', VInt (rows p)), (''cols'', VInt (cols p)), (''readOnly'', VBool (read_only p))] @
     (case pclass p of
        IntP lo hi d \<Rightarrow> [(''min'', VInt lo), (''max'', VInt hi)]
      | FloatP lo hi d \<Rightarrow> [(''min'', num_val lo), (''max'', num_val hi)]
      | _ \<Rightarrow> [])"

text \<open>
  The branch \<open>get_param_info\<close>: the parameters of the component whose
  \<open>param_type.value\<close> equals the string of the request, then the count or the
  \<open>idx\<close>-th of them.
\<close>

definition typed_params :: "'f world \<Rightarrow> Component \<Rightarrow> string \<Rightarrow> 'f BaseParameter list" where
  "typed_params w cmpt ptype =
     filter (\<lambda>p. ParameterType_value (param_type (pclass p)) = ptype)
       (List.map_filter (store w) (map snd (parameters cmpt)))"

definition handle_get_param_info :: "'f CentralHub \<Rightarrow> 'f request \<Rightarrow> 'f response" where
  "handle_get_param_info hub req =
     (let idx = (case req_idx req of None \<Rightarrow> - 1 | Some i \<Rightarrow> i) in
      if \<not> truthy (req_comp req) \<or> \<not> truthy (req_param_type req)
      then Json [(''error'', VStr ''missing comp or param_type'')]
      else (case map_of (local_components hub) (the (req_comp req)) of
          None \<Rightarrow> Json [(''error'', VStr ''component not found'')]
        | Some cmpt \<Rightarrow>
            let ps = typed_params (hub_world hub) cmpt (the (req_param_type req)) in
            if idx = - 1 then Json [(''count'', VInt (int (length ps)))]
            else if idx < 0 \<or> idx \<ge> int (length ps)
            then Json [(''error'', VStr ''index out of range'')]
            else Json (param_info (ps ! nat idx))))"

definition handle_get_param :: "'f CentralHub \<Rightarrow> 'f request \<Rightarrow> 'f response" where
  "handle_get_param hub req =
     (let row = (case req_row req of None \<Rightarrow> 0 | Some i \<Rightarrow> i);
          col = (case req_col req of None \<Rightarrow> 0 | Some i \<Rightarrow> i)
      in case lookup_param hub req of
          None \<Rightarrow> Json [(''error'', VStr ''parameter not found'')]
        | Some r \<Rightarrow>
            (case store (hub_world hub) r of
               None \<Rightarrow> Json [(''error'', VStr ''parameter not found'')]
             | Some p \<Rightarrow>
                 Json [(''name'', VStr (name p)), (''id'', VInt (param_id p)),
                       (''type'', VStr (ParameterType_value (param_type (pclass p)))),
                       (''value'', get_value p row col)]))"

text \<open>
  The branch \<open>set_param\<close> / \<open>SET\<close>. The write is \<open>param.set_value(row, col, value)\<close>,
  with notification; an exception out of it becomes a response.
\<close>

definition handle_set_param :: "nat \<Rightarrow> 'f pyops \<Rightarrow> 'f behaviour \<Rightarrow> 'f CentralHub \<Rightarrow> 'f request
      \<Rightarrow> ('f CentralHub \<times> 'f response) option" where
  "handle_set_param n ops beh hub req =
     (let row = (case req_row req of None \<Rightarrow> 0 | Some i \<Rightarrow> i);
          col = (case req_col req of None \<Rightarrow> 0 | Some i \<Rightarrow> i);
          v = req_value req
      in if v = VNone
         then Some (hub, Json [(''success'', VBool False), (''error'', VStr ''missing value field'')])
         else (case lookup_param hub req of
             None \<Rightarrow> Some (hub, Json [(''success'', VBool False), (''error'', VStr ''parameter not found'')])
           | Some r \<Rightarrow>
               (case store (hub_world hub) r of
                  None \<Rightarrow> None
                | Some p \<Rightarrow>
                    if read_only p
                    then Some (hub, Json [(''success'', VBool False), (''error'', VStr ''parameter is read-only'')])
                    else (case set_value n ops beh (hub_world hub) r row col v True of
                        None \<Rightarrow> None
                      | Some (Inl e) \<Rightarrow> Some (hub, SetFailed e)
                      | Some (Inr (w', invs)) \<Rightarrow>
                          Some (hub\<lparr>hub_world := w'\<rparr>, Json [(''success'', VBool True)])))))"

definition handle_message :: "nat \<Rightarrow> 'f pyops \<Rightarrow> 'f behaviour \<Rightarrow> 'f CentralHub \<Rightarrow> 'f request
      \<Rightarrow> ('f CentralHub \<times> 'f response) option" where
  "handle_message n ops beh hub req =
     (if \<not> truthy (req_type req) then Some (hub, Json [(''error'', VStr ''missing type field'')])
      else let msg_type = the (req_type req) in
        if msg_type = ''get_components'' then Some (hub, OtherBranch)
        else if msg_type = ''get_component_params'' then Some (hub, OtherBranch)
        else if msg_type = ''get_param_info'' then Some (hub, handle_get_param_info hub req)
        else if msg_type = ''get_param'' then Some (hub, handle_get_param hub req)
        else if msg_type \<in> {''set_param'', ''SET''} then handle_set_param n ops beh hub req
        else if msg_type = ''subscribe'' then Some (hub, OtherBranch)
        else if msg_type = ''unsubscribe'' then Some (hub, OtherBranch)
        else Some (hub, Json [(''error'', VStr (''unknown message type: '' @ msg_type))]))"

section \<open>The local components and the hub (central_hub.py)\<close>

text \<open>
  The constructors of the four local components declare their parameters and register
  their own callbacks. A callback is a bound method or a closure; the identifiers
  below name them.
\<close>

definition NUM_NETWORK_ACTIONS :: int where
  "NUM_NETWORK_ACTIONS = 100"

definition NUM_WATCH_SLOTS :: int where
  "NUM_WATCH_SLOTS = 50"

definition cb_on_trigger_change :: cb where
  "cb_on_trigger_change = 0"

definition cb_network_on_nicknames_change :: cb where
  "cb_network_on_nicknames_change = 1"

definition cb_on_action_to_send_change :: cb where
  "cb_on_action_to_send_change = 2"

definition cb_action_on_nicknames_change :: cb where
  "cb_action_on_nicknames_change = 3"

definition cb_on_variables_change :: cb where
  "cb_on_variables_change = 4"

definition cb_broadcast :: "int \<Rightarrow> cb" where
  "cb_broadcast pid = 5 + nat pid"

definition register :: "'f world \<Rightarrow> ref \<Rightarrow> cb \<Rightarrow> 'f world" where
  "register w r c = (case on_change w r c of None \<Rightarrow> w | Some w' \<Rightarrow> w')"

definition empty_world :: "'f world" where
  "empty_world = \<lparr>store = Map.empty, next_ref = 0, next_param_id = 1, events = [], logged_errors = 0\<rparr>"

definition NetworkActionsComponent :: "'f world \<Rightarrow> 'f world \<times> Component" where
  "NetworkActionsComponent w =
     (let (s1, network_messages) =
            add_string_param ''network_messages'' NUM_NETWORK_ACTIONS 1 [] False
              (w, new_component ''NetworkActions'');
          (s2, trigger) =
            add_int_param ''trigger'' 1 1 (- 1) (NUM_NETWORK_ACTIONS - 1) (- 1) False s1;
          (s3, last_response) = add_string_param ''last_response'' 1 1 [] True s2;
          (s4, device_nicknames) = add_string_param ''device_nicknames'' 1 1 ''{}'' False s3;
          w1 = register (fst s4) trigger cb_on_trigger_change;
          w2 = register w1 device_nicknames cb_network_on_nicknames_change
      in (w2, snd s4))"

definition ActionManagerComponent :: "'f world \<Rightarrow> 'f world \<times> Component" where
  "ActionManagerComponent w =
     (let (s1, action_to_send) =
            add_string_param ''action_to_send'' 1 1 [] False (w, new_component ''ActionManager'');
          (s2, queue_length) = add_int_param ''queue_length'' 1 1 0 999999 0 True s1;
          (s3, enabled) = add_bool_param ''enabled'' 1 1 True False s2;
          (s4, device_nicknames) = add_string_param ''device_nicknames'' 1 1 ''{}'' False s3;
          w1 = register (fst s4) action_to_send cb_on_action_to_send_change;
          w2 = register w1 device_nicknames cb_action_on_nicknames_change
      in (w2, snd s4))"

definition WatcherComponent :: "'f world \<Rightarrow> 'f world \<times> Component" where
  "WatcherComponent w =
     (let (s1, variables) = add_string_param ''variables'' 1 1 ''{}'' False (w, new_component ''Watcher'');
          (s2, expressions) = add_string_param ''expressions'' NUM_WATCH_SLOTS 1 [] False s1;
          (s3, rising_actions) = add_string_param ''rising_actions'' NUM_WATCH_SLOTS 1 [] False s2;
          (s4, falling_actions) = add_string_param ''falling_actions'' NUM_WATCH_SLOTS 1 [] False s3;
          (s5, enabled) = add_bool_param ''enabled'' 1 1 True False s4;
          (s6, eval_count) = add_int_param ''eval_count'' 1 1 0 999999999 0 True s5;
          w1 = register (fst s6) variables cb_on_variables_change
      in (w1, snd s6))"

definition WebServerComponent :: "int \<Rightarrow> string \<Rightarrow> 'f world \<Rightarrow> 'f world \<times> Component" where
  "WebServerComponent port local_ip w =
     (let (s1, port_param) = add_int_param ''port'' 1 1 1 65535 port True (w, new_component ''WebServer'');
          (s2, local_ip_param) = add_string_param ''local_ip'' 1 1 local_ip True s1;
          (s3, connected_clients_param) = add_int_param ''connected_clients'' 1 1 0 1000 0 True s2;
          (s4, total_messages_param) = add_int_param ''total_messages'' 1 1 0 999999999 0 True s3
      in s4)"

text \<open>\<open>CentralHub.__init__\<close> with \<open>_init_local_components\<close>.\<close>

definition new_CentralHub :: "int \<Rightarrow> string \<Rightarrow> 'f CentralHub" where
  "new_CentralHub ws_port local_ip =
     (let (w1, network_actions) = NetworkActionsComponent empty_world;
          (w2, action_manager) = ActionManagerComponent w1;
          (w3, watcher) = WatcherComponent w2;
          (w4, web_server) = WebServerComponent ws_port local_ip w3
      in \<lparr>hub_world = w4,
          local_components = [(''NetworkActions'', network_actions), (''ActionManager'', action_manager),
            (''Watcher'', watcher), (''WebServer'', web_server)]\<rparr>)"

text \<open>
  \<open>_setup_broadcast_callbacks\<close>, run when the server starts: one broadcast closure on
  every parameter of every local component.
\<close>

fun broadcast_on_params :: "'f world \<Rightarrow> ref list \<Rightarrow> 'f world" where
  "broadcast_on_params w [] = w"
| "broadcast_on_params w (r # rs) =
     (case store w r of
        None \<Rightarrow> broadcast_on_params w rs
      | Some param \<Rightarrow> broadcast_on_params (register w r (cb_broadcast (param_id param))) rs)"

fun broadcast_on_components :: "'f world \<Rightarrow> Component list \<Rightarrow> 'f world" where
  "broadcast_on_components w [] = w"
| "broadcast_on_components w (c # cs) =
     broadcast_on_components (broadcast_on_params w (map snd (parameters c))) cs"

definition setup_broadcast_callbacks :: "'f CentralHub \<Rightarrow> 'f CentralHub" where
  "setup_broadcast_callbacks hub =
     hub\<lparr>hub_world := broadcast_on_components (hub_world hub) (map snd (local_components hub))\<rparr>"



section \<open>The mirror of a remote device (central_hub.py)\<close>





section \<open>The invariant of a parameter\<close>








section \<open>Auxiliary notions for the proofs\<close>

text \<open>
  What no operation of the model changes in a parameter: its declaration. The list of
  callbacks only grows, since \<open>on_change\<close> is the one operation on it.
\<close>

definition same_decl :: "'f BaseParameter \<Rightarrow> 'f BaseParameter \<Rightarrow> bool" where
  "same_decl p p' =
     (prefix (on_change_callbacks p) (on_change_callbacks p') \<and>
      pclass p' = pclass p \<and> name p' = name p \<and> param_id p' = param_id p \<and>
      rows p' = rows p \<and> cols p' = cols p \<and> read_only p' = read_only p)"

definition extends :: "'f world \<Rightarrow> 'f world \<Rightarrow> bool" where
  "extends w w' = (\<forall>r p. store w r = Some p \<longrightarrow> (\<exists>p'. store w' r = Some p' \<and> same_decl p p'))"

text \<open>
  A passive callback neither writes a parameter nor registers a callback: it hands
  work to the event loop, or raises. The broadcast callback of the protocol server is
  one. \<open>emitted\<close> and \<open>raised\<close> are what such a callback leaves behind.
\<close>

fun passive_op :: "'f op \<Rightarrow> bool" where
  "passive_op (Emit e) = True"
| "passive_op (Raise e) = True"
| "passive_op _ = False"

definition passive_cb :: "'f behaviour \<Rightarrow> cb \<Rightarrow> bool" where
  "passive_cb beh c = (\<forall>p row col v old. list_all passive_op (beh c p row col v old))"

fun emitted :: "'f op list \<Rightarrow> 'f event list" where
  "emitted [] = []"
| "emitted (Emit e # xs) = e # emitted xs"
| "emitted (Raise e # xs) = []"
| "emitted (x # xs) = emitted xs"

fun raised :: "'f op list \<Rightarrow> error option" where
  "raised [] = None"
| "raised (Raise e # xs) = Some e"
| "raised (x # xs) = raised xs"

section \<open>Concrete instances\<close>

text \<open>
  An instance of the float operations over the rationals, exact where binary floating
  point rounds, and a world with one integer parameter \<open>level\<close>, 1 by 1, between 0
  and 100, as \<open>add_int_param\<close> declares it by default.
\<close>

definition demo_ops :: "rat pyops" where
  "demo_ops = \<lparr>str_to_int = (\<lambda>s. None), str_to_float = (\<lambda>s. None),
     int_to_float = (\<lambda>i. Some (of_int i)),
     float_to_int = (\<lambda>f. Inr (if f < 0 then - \<lfloor>- f\<rfloor> else \<lfloor>f\<rfloor>)),
     float_lt = (\<lambda>a b. a < b), float_lt_int = (\<lambda>f i. f < of_int i),
     int_lt_float = (\<lambda>i f. of_int i < f), float_eq = (\<lambda>a b. a = b),
     float_eq_int = (\<lambda>f i. f = of_int i),
     float_truth = (\<lambda>f. f \<noteq> 0), float_repr = (\<lambda>f. ''float'')\<rparr>"

definition demo_world :: "cb list \<Rightarrow> rat world" where
  "demo_world cbs =
     \<lparr>store = [0 \<mapsto> (new_parameter ''level'' 1 1 1 False (IntP 0 100 0))\<lparr>on_change_callbacks := cbs\<rparr>],
      next_ref = 1, next_param_id = 2, events = [], logged_errors = 0\<rparr>"

definition emit_beh :: "rat behaviour" where
  "emit_beh c p row col v old = [Emit (External c)]"

definition register_beh :: "rat behaviour" where
  "register_beh c p row col v old = (if c = 0 then [OnChange 0 1] else [Emit (External c)])"

definition demo_hub :: "rat CentralHub" where
  "demo_hub = setup_broadcast_callbacks (new_CentralHub 80 ''127.0.0.1'')"



definition info_request :: "string \<Rightarrow> string \<Rightarrow> int \<Rightarrow> rat request" where
  "info_request cn ptype idx = \<lparr>req_type = Some ''get_param_info'', req_param_id = None, req_comp = Some cn,
     req_param = None, req_param_type = Some ptype, req_idx = Some idx, req_row = None, req_col = None,
     req_value = VNone\<rparr>"

section \<open>Subscriptions of the protocol server (components/web_server.py)\<close>

text \<open>
  \<open>SubscriptionManager\<close>: two dictionaries of sets, from a client websocket to the keys
  \<open>(param_id, row, col)\<close> it subscribed to and from a key to its clients. A Python set
  is a list here, \<open>add\<close> is \<open>List.insert\<close> and \<open>discard\<close> is \<open>removeAll\<close>; the list
  order stands for the order in which \<open>remove_client\<close> iterates the set.
\<close>

type_synonym key = "int \<times> int \<times> int"

record 'ws SubscriptionManager =
  subscriptions :: "'ws \<rightharpoonup> key list"
  param_subscribers :: "key \<rightharpoonup> 'ws list"

definition new_SubscriptionManager :: "'ws SubscriptionManager" where
  "new_SubscriptionManager = \<lparr>subscriptions = Map.empty, param_subscribers = Map.empty\<rparr>"

definition subscribe :: "'ws SubscriptionManager \<Rightarrow> 'ws \<Rightarrow> int \<Rightarrow> int \<Rightarrow> int \<Rightarrow> 'ws SubscriptionManager" where
  "subscribe m ws pid row col =
     (let key = (pid, row, col);
          keys = (case subscriptions m ws of None \<Rightarrow> [] | Some ks \<Rightarrow> ks);
          clients = (case param_subscribers m key of None \<Rightarrow> [] | Some cs \<Rightarrow> cs)
      in \<lparr>subscriptions = (subscriptions m)(ws \<mapsto> List.insert key keys),
          param_subscribers = (param_subscribers m)(key \<mapsto> List.insert ws clients)\<rparr>)"

text \<open>
  The block shared by \<open>unsubscribe\<close> and the loop of \<open>remove_client\<close>:
  \<open>if key in self._param_subscribers\<close>, discard the client and delete the entry
  if the set is left empty.
\<close>

definition discard_subscriber :: "(key \<rightharpoonup> 'ws list) \<Rightarrow> key \<Rightarrow> 'ws \<Rightarrow> (key \<rightharpoonup> 'ws list)" where
  "discard_subscriber ps key ws =
     (case ps key of None \<Rightarrow> ps
      | Some cs \<Rightarrow> if removeAll ws cs = [] then ps(key := None) else ps(key \<mapsto> removeAll ws cs))"

definition unsubscribe :: "'ws SubscriptionManager \<Rightarrow> 'ws \<Rightarrow> int \<Rightarrow> int \<Rightarrow> int \<Rightarrow> 'ws SubscriptionManager" where
  "unsubscribe m ws pid row col =
     (let key = (pid, row, col)
      in \<lparr>subscriptions = (case subscriptions m ws of None \<Rightarrow> subscriptions m
                            | Some ks \<Rightarrow> (subscriptions m)(ws \<mapsto> removeAll key ks)),
          param_subscribers = discard_subscriber (param_subscribers m) key ws\<rparr>)"

definition remove_client :: "'ws SubscriptionManager \<Rightarrow> 'ws \<Rightarrow> 'ws SubscriptionManager" where
  "remove_client m ws =
     (case subscriptions m ws of None \<Rightarrow> m
      | Some ks \<Rightarrow>
          \<lparr>subscriptions = (subscriptions m)(ws := None),
           param_subscribers = fold (\<lambda>key ps. discard_subscriber ps key ws) ks (param_subscribers m)\<rparr>)"

definition get_subscribers :: "'ws SubscriptionManager \<Rightarrow> int \<Rightarrow> int \<Rightarrow> int \<Rightarrow> 'ws list" where
  "get_subscribers m pid row col =
     (case param_subscribers m (pid, row, col) of None \<Rightarrow> [] | Some cs \<Rightarrow> cs)"

text \<open>The calls a server makes on its manager, and a run of them from \<open>__init__\<close>.\<close>

datatype 'ws sub_call =
    Subscribe 'ws int int int
  | Unsubscribe 'ws int int int
  | RemoveClient 'ws

fun sub_step :: "'ws sub_call \<Rightarrow> 'ws SubscriptionManager \<Rightarrow> 'ws SubscriptionManager" where
  "sub_step (Subscribe ws pid row col) m = subscribe m ws pid row col"
| "sub_step (Unsubscribe ws pid row col) m = unsubscribe m ws pid row col"
| "sub_step (RemoveClient ws) m = remove_client m ws"

definition sub_run :: "'ws sub_call list \<Rightarrow> 'ws SubscriptionManager" where
  "sub_run calls = fold sub_step calls new_SubscriptionManager"

text \<open>The members of the set under a key of a dictionary of sets; none if the key is absent.\<close>

definition members :: "('k \<rightharpoonup> 'v list) \<Rightarrow> 'k \<Rightarrow> 'v set" where
  "members d k = (case d k of None \<Rightarrow> {} | Some xs \<Rightarrow> set xs)"

definition consistent :: "'ws SubscriptionManager \<Rightarrow> bool" where
  "consistent m =
     ((\<forall>ws key. ws \<in> members (param_subscribers m) key \<longleftrightarrow> key \<in> members (subscriptions m) ws) \<and>
      (\<forall>key. param_subscribers m key \<noteq> Some []))"

section \<open>Properties\<close>

lemma same_decl_refl: "same_decl p p"
  by (simp add: same_decl_def)

lemma same_decl_trans: "same_decl p q \<Longrightarrow> same_decl q s \<Longrightarrow> same_decl p s"
  unfolding same_decl_def using prefix_order.trans by auto

lemma extends_refl: "extends w w"
  by (simp add: extends_def same_decl_refl)

lemma extends_trans:
  assumes "extends a b" and "extends b c"
  shows "extends a c"
  unfolding extends_def
proof (intro allI impI)
  fix r p
  assume "store a r = Some p"
  with assms(1) obtain q where q: "store b r = Some q" "same_decl p q"
    unfolding extends_def by blast
  with assms(2) obtain s where s: "store c r = Some s" "same_decl q s"
    unfolding extends_def by blast
  from q(2) s(2) have "same_decl p s" by (rule same_decl_trans)
  with s(1) show "\<exists>p'. store c r = Some p' \<and> same_decl p p'" by blast
qed

lemma extends_put:
  assumes "store w r = Some p" and "same_decl p p'"
  shows "extends w (put_param w r p')"
  unfolding extends_def
proof (intro allI impI)
  fix r' q
  assume a: "store w r' = Some q"
  show "\<exists>p'a. store (put_param w r p') r' = Some p'a \<and> same_decl q p'a"
  proof (cases "r' = r")
    case True
    with a assms show ?thesis by (simp add: put_param_def)
  next
    case False
    with a show ?thesis by (simp add: put_param_def same_decl_refl)
  qed
qed

lemma extends_put_values:
  "store w r = Some p \<Longrightarrow> extends w (put_param w r (p\<lparr>values_map := m\<rparr>))"
  using extends_put[of w r p "p\<lparr>values_map := m\<rparr>"] by (simp add: same_decl_def)

lemma extends_on_change:
  assumes "on_change w r c = Some w'"
  shows "extends w w'"
proof (cases "store w r")
  case None
  with assms show ?thesis by (simp add: on_change_def)
next
  case (Some p)
  with assms have "w' = put_param w r (p\<lparr>on_change_callbacks := on_change_callbacks p @ [c]\<rparr>)"
    by (simp add: on_change_def)
  moreover have "same_decl p (p\<lparr>on_change_callbacks := on_change_callbacks p @ [c]\<rparr>)"
    by (simp add: same_decl_def)
  ultimately show ?thesis using extends_put[OF Some] by simp
qed

lemma extends_events: "extends w (w\<lparr>events := es\<rparr>)"
  by (simp add: extends_def same_decl_refl)

lemma extends_logged: "extends w (w\<lparr>logged_errors := k\<rparr>)"
  by (simp add: extends_def same_decl_refl)

lemma frame:
  "base_set_value n ops beh w r row col v nt = Some (w', invs) \<Longrightarrow> extends w w'"
  "notify_loop n ops beh w r row col v old i = Some (w', invs) \<Longrightarrow> extends w w'"
  "run_ops n ops beh w xs = Some (w', exc) \<Longrightarrow> extends w w'"
proof (induction n ops beh w r row col v nt and n ops beh w r row col v old i and n ops beh w xs
    arbitrary: w' invs and w' invs and w' exc rule: base_set_value_notify_loop_run_ops.induct)
  case (1 n ops beh w r row col "value" notify)
  show ?case
  proof (cases "store w r")
    case None
    with 1(2) show ?thesis by simp
  next
    case (Some p)
    let ?w1 = "put_param w r (p\<lparr>values_map := (values_map p)((row, col) \<mapsto> value)\<rparr>)"
    have e1: "extends w ?w1" using Some by (rule extends_put_values)
    show ?thesis
    proof (cases "notify \<and> py_ne ops (get_value p row col) value")
      case True
      with 1(2) Some have
        "notify_loop n ops beh ?w1 r row col value (get_value p row col) 0 = Some (w', invs)"
        by (simp add: Let_def)
      from 1(1)[OF Some refl refl True this] have "extends ?w1 w'" .
      with e1 show ?thesis using extends_trans by blast
    next
      case False
      with 1(2) Some have "w' = ?w1" by (auto simp: Let_def)
      with e1 show ?thesis by simp
    qed
  qed
next
  case (2 ops beh w r row col "value" old_value i)
  then show ?case by simp
next
  case (3 n ops beh w r row col "value" old_value i)
  show ?case
  proof (cases "store w r")
    case None
    with 3(3) show ?thesis by simp
  next
    case (Some p)
    show ?thesis
    proof (cases "i < length (on_change_callbacks p)")
      case False
      with 3(3) Some show ?thesis by (simp add: extends_refl)
    next
      case True
      let ?c = "on_change_callbacks p ! i"
      from 3(3) Some True obtain w1 exc1 where
        r1: "run_ops n ops beh w (beh ?c p row col value old_value) = Some (w1, exc1)"
        by (auto simp: Let_def split: option.splits)
      let ?w2 = "case exc1 of None \<Rightarrow> w1 | Some e \<Rightarrow> w1\<lparr>logged_errors := logged_errors w1 + 1\<rparr>"
      from 3(3) Some True r1 obtain invs' where
        r2: "notify_loop n ops beh ?w2 r row col value old_value (i + 1) = Some (w', invs')"
        by (auto simp: Let_def split: option.splits)
      have e1: "extends w w1" using 3(1)[OF Some True refl r1] .
      have e2: "extends w1 ?w2" by (auto split: option.splits simp: extends_refl extends_logged)
      have e3: "extends ?w2 w'" using 3(2)[OF Some True refl r1 refl refl r2] .
      show ?thesis using e1 e2 e3 extends_trans by blast
    qed
  qed
next
  case (4 n ops beh w)
  then show ?case by (simp add: extends_refl)
next
  case (5 n ops beh w r row col v notify xs)
  show ?case
  proof (cases "store w r")
    case None
    with 5(3) show ?thesis by simp
  next
    case (Some p)
    show ?thesis
    proof (cases "coerce ops (pclass p) v")
      case (Inl e)
      with 5(3) Some show ?thesis by (auto simp: extends_refl)
    next
      case (Inr v')
      from 5(3) Some Inr obtain w1 invs1 where
        b: "base_set_value n ops beh w r row col v' notify = Some (w1, invs1)"
        and rr: "run_ops n ops beh w1 xs = Some (w', exc)"
        by (auto split: option.splits)
      have e1: "extends w w1" using 5(1)[OF Some Inr b] .
      have e2: "extends w1 w'" using 5(2)[OF Some Inr b refl rr] .
      show ?thesis using e1 e2 extends_trans by blast
    qed
  qed
next
  case (6 n ops beh w r c xs)
  from 6(2) obtain w1 where oc: "on_change w r c = Some w1"
    and rr: "run_ops n ops beh w1 xs = Some (w', exc)"
    by (auto split: option.splits)
  have "extends w w1" using oc by (rule extends_on_change)
  moreover have "extends w1 w'" using 6(1)[OF oc rr] .
  ultimately show ?case using extends_trans by blast
next
  case (7 n ops beh w e xs)
  from 7(2) have rr: "run_ops n ops beh (w\<lparr>events := events w @ [e]\<rparr>) xs = Some (w', exc)"
    by simp
  have "extends w (w\<lparr>events := events w @ [e]\<rparr>)" by (rule extends_events)
  moreover have "extends (w\<lparr>events := events w @ [e]\<rparr>) w'" using 7(1)[OF rr] .
  ultimately show ?case using extends_trans by blast
next
  case (8 n ops beh w e xs)
  then show ?case by (simp add: extends_refl)
qed

lemma notify_loop_invs:
  "notify_loop n ops beh w r row col v old i = Some (w', invs) \<Longrightarrow> store w r = Some p \<Longrightarrow>
   \<exists>p'. store w' r = Some p' \<and> same_decl p p' \<and>
        invs = map (\<lambda>c. (c, row, col, v, old)) (drop i (on_change_callbacks p'))"
proof (induction n arbitrary: w i p invs)
  case 0
  then show ?case by simp
next
  case (Suc n)
  show ?case
  proof (cases "i < length (on_change_callbacks p)")
    case False
    with Suc.prems have "w' = w" "invs = []" by auto
    with Suc.prems(2) False show ?thesis by (simp add: same_decl_refl)
  next
    case True
    let ?c = "on_change_callbacks p ! i"
    from Suc.prems True obtain w1 exc1 where
      r1: "run_ops n ops beh w (beh ?c p row col v old) = Some (w1, exc1)"
      by (auto simp: Let_def split: option.splits)
    let ?w2 = "case exc1 of None \<Rightarrow> w1 | Some e \<Rightarrow> w1\<lparr>logged_errors := logged_errors w1 + 1\<rparr>"
    from Suc.prems True r1 obtain invs' where
      r2: "notify_loop n ops beh ?w2 r row col v old (i + 1) = Some (w', invs')"
      and iv: "invs = (?c, row, col, v, old) # invs'"
      by (auto simp: Let_def split: option.splits)
    from frame(3)[OF r1] Suc.prems(2) obtain p1 where
      p1: "store w1 r = Some p1" "same_decl p p1"
      unfolding extends_def by blast
    have s2: "store ?w2 r = Some p1" using p1(1) by (simp split: option.splits)
    from Suc.IH[OF r2 s2] obtain p' where
      p': "store w' r = Some p'" "same_decl p1 p'"
        "invs' = map (\<lambda>c. (c, row, col, v, old)) (drop (i + 1) (on_change_callbacks p'))"
      by blast
    have sd: "same_decl p p'" using p1(2) p'(2) by (rule same_decl_trans)
    then have pre: "prefix (on_change_callbacks p) (on_change_callbacks p')"
      by (simp add: same_decl_def)
    then obtain zs where zs: "on_change_callbacks p' = on_change_callbacks p @ zs"
      by (auto simp: prefix_def)
    have nth: "on_change_callbacks p' ! i = ?c" using True zs by (simp add: nth_append)
    have len: "i < length (on_change_callbacks p')" using True zs by simp
    have "drop i (on_change_callbacks p') = ?c # drop (i + 1) (on_change_callbacks p')"
      using Cons_nth_drop_Suc[OF len] nth by simp
    with iv p'(3) have "invs = map (\<lambda>c. (c, row, col, v, old)) (drop i (on_change_callbacks p'))"
      by simp
    with p'(1) sd show ?thesis by blast
  qed
qed

lemma run_ops_passive:
  "list_all passive_op xs \<Longrightarrow>
   run_ops n ops beh w xs = Some (w\<lparr>events := events w @ emitted xs\<rparr>, raised xs)"
proof (induction xs arbitrary: w)
  case Nil
  then show ?case by simp
next
  case (Cons x xs)
  then show ?case by (cases x) simp_all
qed

lemma notify_loop_passive:
  assumes "store w r = Some p"
    and "\<forall>j. i \<le> j \<and> j < length (on_change_callbacks p) \<longrightarrow> passive_cb beh (on_change_callbacks p ! j)"
    and "length (on_change_callbacks p) - i < n"
  shows "\<exists>w'. notify_loop n ops beh w r row col v old i =
            Some (w', map (\<lambda>c. (c, row, col, v, old)) (drop i (on_change_callbacks p))) \<and>
          store w' = store w \<and>
          events w' = events w @
            concat (map (\<lambda>c. emitted (beh c p row col v old)) (drop i (on_change_callbacks p)))"
  using assms
proof (induction n arbitrary: w i)
  case 0
  then show ?case by simp
next
  case (Suc n)
  show ?case
  proof (cases "i < length (on_change_callbacks p)")
    case False
    with Suc.prems(1) show ?thesis by simp
  next
    case True
    let ?c = "on_change_callbacks p ! i"
    let ?xs = "beh ?c p row col v old"
    have pas: "list_all passive_op ?xs"
      using Suc.prems(2) True by (simp add: passive_cb_def)
    let ?w1 = "w\<lparr>events := events w @ emitted ?xs\<rparr>"
    have r1: "run_ops n ops beh w ?xs = Some (?w1, raised ?xs)"
      using pas by (rule run_ops_passive)
    let ?w2 = "case raised ?xs of None \<Rightarrow> ?w1 | Some e \<Rightarrow> ?w1\<lparr>logged_errors := logged_errors ?w1 + 1\<rparr>"
    have s2: "store ?w2 r = Some p" using Suc.prems(1) by (simp split: option.splits)
    have st2: "store ?w2 = store w" by (simp split: option.splits)
    have ev2: "events ?w2 = events w @ emitted ?xs" by (simp split: option.splits)
    have pas2: "\<forall>j. i + 1 \<le> j \<and> j < length (on_change_callbacks p) \<longrightarrow>
        passive_cb beh (on_change_callbacks p ! j)"
      using Suc.prems(2) by simp
    have len2: "length (on_change_callbacks p) - (i + 1) < n" using Suc.prems(3) True by simp
    from Suc.IH[OF s2 pas2 len2] obtain w' where
      w': "notify_loop n ops beh ?w2 r row col v old (i + 1) =
            Some (w', map (\<lambda>c. (c, row, col, v, old)) (drop (i + 1) (on_change_callbacks p)))"
        "store w' = store ?w2"
        "events w' = events ?w2 @
            concat (map (\<lambda>c. emitted (beh c p row col v old)) (drop (i + 1) (on_change_callbacks p)))"
      by blast
    have dr: "drop i (on_change_callbacks p) = ?c # drop (i + 1) (on_change_callbacks p)"
      using Cons_nth_drop_Suc[OF True] by simp
    have "notify_loop (Suc n) ops beh w r row col v old i =
            Some (w', map (\<lambda>c. (c, row, col, v, old)) (drop i (on_change_callbacks p)))"
      using Suc.prems(1) True r1 w'(1) dr by (simp add: Let_def)
    moreover have "store w' = store w" using w'(2) st2 by simp
    moreover have "events w' = events w @
            concat (map (\<lambda>c. emitted (beh c p row col v old)) (drop i (on_change_callbacks p)))"
      using w'(3) ev2 dr by simp
    ultimately show ?thesis by blast
  qed
qed

lemma base_set_value_quiet:
  assumes "store w r = Some p" and "\<not> (nt \<and> py_ne ops (get_value p row col) v)"
  shows "base_set_value n ops beh w r row col v nt =
     Some (put_param w r (p\<lparr>values_map := (values_map p)((row, col) \<mapsto> v)\<rparr>), [])"
  using assms by (cases nt) (simp_all add: Let_def)

lemma base_set_value_passive:
  assumes "store w r = Some p"
    and "\<forall>c \<in> set (on_change_callbacks p). passive_cb beh c"
    and "length (on_change_callbacks p) < n"
    and "nt \<and> py_ne ops (get_value p row col) v"
  shows "\<exists>w'. base_set_value n ops beh w r row col v nt =
            Some (w', map (\<lambda>c. (c, row, col, v, get_value p row col)) (on_change_callbacks p)) \<and>
          store w' = (store w)(r \<mapsto> p\<lparr>values_map := (values_map p)((row, col) \<mapsto> v)\<rparr>) \<and>
          events w' = events w @ concat (map (\<lambda>c. emitted
             (beh c (p\<lparr>values_map := (values_map p)((row, col) \<mapsto> v)\<rparr>) row col v (get_value p row col)))
             (on_change_callbacks p))"
proof -
  let ?p1 = "p\<lparr>values_map := (values_map p)((row, col) \<mapsto> v)\<rparr>"
  let ?w1 = "put_param w r ?p1"
  have s1: "store ?w1 r = Some ?p1" by (simp add: put_param_def)
  have pas: "\<forall>j. 0 \<le> j \<and> j < length (on_change_callbacks ?p1) \<longrightarrow>
      passive_cb beh (on_change_callbacks ?p1 ! j)"
    using assms(2) by simp
  have len: "length (on_change_callbacks ?p1) - 0 < n" using assms(3) by simp
  from notify_loop_passive[OF s1 pas len, of ops row col v "get_value p row col"]
  obtain w' where w':
    "notify_loop n ops beh ?w1 r row col v (get_value p row col) 0 =
       Some (w', map (\<lambda>c. (c, row, col, v, get_value p row col)) (drop 0 (on_change_callbacks ?p1)))"
    "store w' = store ?w1"
    "events w' = events ?w1 @ concat (map (\<lambda>c. emitted (beh c ?p1 row col v (get_value p row col)))
        (drop 0 (on_change_callbacks ?p1)))"
    by blast
  have "base_set_value n ops beh w r row col v nt = notify_loop n ops beh ?w1 r row col v (get_value p row col) 0"
    using assms(1,4) by (simp add: Let_def)
  with w' show ?thesis by (simp add: put_param_def)
qed

lemma new_parameter_1x1:
  "new_parameter nm pid 1 1 ro k =
     \<lparr>name = nm, param_id = pid, rows = 1, cols = 1, read_only = ro,
       values_map = [(0, 0) \<mapsto> default_val k], on_change_callbacks = [], pclass = k\<rparr>"
  by (simp add: new_parameter_def post_init_def upto.simps)


lemma demo_store: "store (demo_world cbs) 0 =
   Some \<lparr>name = ''level'', param_id = 1, rows = 1, cols = 1, read_only = False,
       values_map = [(0, 0) \<mapsto> VInt 0], on_change_callbacks = cbs, pclass = IntP 0 100 0\<rparr>"
  by (simp add: demo_world_def new_parameter_1x1)

lemma emit_passive: "passive_cb emit_beh c"
  by (simp add: passive_cb_def emit_beh_def)


lemma register_run:
  "\<exists>w'. set_value 3 demo_ops register_beh (demo_world [0]) 0 0 0 (VInt 5) True =
      Some (Inr (w', [(0, 0, 0, VInt 5, VInt 0), (1, 0, 0, VInt 5, VInt 0)]))"
  by (simp add: set_value_def demo_store register_beh_def Let_def get_value_def py_ne_def
      put_param_def on_change_def eval_nat_numeral)

text \<open>
  Claim C7 says that the subscribers called are those of a snapshot of the list taken
  when the notification starts. The loop iterates the list itself: here the only
  subscriber, 0, registers subscriber 1 on the same parameter when it is called, and
  subscriber 1 is called for the same change.
\<close>

theorem notification_not_snapshot_counterexample:
  "on_change_callbacks (the (store (demo_world [0]) 0)) = [0] \<and>
   map_option (map_sum id snd)
     (set_value 3 demo_ops register_beh (demo_world [0]) 0 0 0 (VInt 5) True) =
      Some (Inr [(0, 0, 0, VInt 5, VInt 0), (1, 0, 0, VInt 5, VInt 0)])"
  by (simp add: set_value_def demo_store register_beh_def Let_def get_value_def py_ne_def
      put_param_def on_change_def eval_nat_numeral)

text \<open>
  Claim C7, amended. The notification iterates the live list of subscribers: when the
  call returns, the subscribers called are those of the list as it is at the end of
  the notification, in list order, each with \<open>(row, col, new, old)\<close>; the list at
  the start is a prefix of it, so a subscriber registered through \<open>on_change\<close> while
  the notification runs is called for the same change, after the earlier ones.
\<close>

theorem notification_follows_live_list:
  assumes "store w r = Some p" and "coerce ops (pclass p) v = Inr v'"
    and "\<not> py_eq ops (get_value p row col) v'"
    and "set_value n ops beh w r row col v True = Some (Inr (w', invs))"
  shows "\<exists>p'. store w' r = Some p' \<and>
           prefix (on_change_callbacks p) (on_change_callbacks p') \<and>
           invs = map (\<lambda>c. (c, row, col, v', get_value p row col)) (on_change_callbacks p')"
proof -
  let ?old = "get_value p row col"
  let ?p1 = "p\<lparr>values_map := (values_map p)((row, col) \<mapsto> v')\<rparr>"
  let ?w1 = "put_param w r ?p1"
  from assms(1,2,4) have b: "base_set_value n ops beh w r row col v' True = Some (w', invs)"
    by (auto simp: set_value_def)
  with assms(1,3) have nl: "notify_loop n ops beh ?w1 r row col v' ?old 0 = Some (w', invs)"
    by (simp add: Let_def py_ne_def)
  have s1: "store ?w1 r = Some ?p1" by (simp add: put_param_def)
  from notify_loop_invs[OF nl s1] obtain p' where
    p': "store w' r = Some p'" "same_decl ?p1 p'"
      "invs = map (\<lambda>c. (c, row, col, v', ?old)) (drop 0 (on_change_callbacks p'))"
    by blast
  from p'(2) have "prefix (on_change_callbacks p) (on_change_callbacks p')"
    by (simp add: same_decl_def)
  with p'(1,3) show ?thesis by simp
qed

theorem notification_follows_live_list_witness:
  "\<exists>w' p' invs. set_value 3 demo_ops register_beh (demo_world [0]) 0 0 0 (VInt 5) True =
       Some (Inr (w', invs)) \<and>
     invs = [(0, 0, 0, VInt 5, VInt 0), (1, 0, 0, VInt 5, VInt 0)] \<and>
     store w' 0 = Some p' \<and> prefix [0] (on_change_callbacks p') \<and>
     invs = map (\<lambda>c. (c, 0, 0, VInt 5, VInt 0)) (on_change_callbacks p')"
proof -
  let ?p = "\<lparr>name = ''level'', param_id = 1, rows = 1, cols = 1, read_only = False,
       values_map = [(0, 0) \<mapsto> VInt 0], on_change_callbacks = [0], pclass = IntP 0 100 (0::int)\<rparr> :: rat BaseParameter"
  have co: "coerce demo_ops (pclass ?p) (VInt 5) = Inr (VInt 5)" by simp
  have ne: "\<not> py_eq demo_ops (get_value ?p 0 0) (VInt 5)" by (simp add: get_value_def)
  let ?invs = "[(0, 0, 0, VInt 5, VInt 0), (1, 0, 0, VInt 5, VInt 0)] :: rat invocation list"
  let ?f = "(\<lambda>c. (c, 0, 0, VInt 5, VInt 0)) :: cb \<Rightarrow> rat invocation"
  from register_run obtain w' where
    sv: "set_value 3 demo_ops register_beh (demo_world [0]) 0 0 0 (VInt 5) True = Some (Inr (w', ?invs))"
    by blast
  have g: "get_value ?p 0 0 = VInt 0" by (simp add: get_value_def)
  from notification_follows_live_list[OF demo_store co ne sv] obtain p' where
    p': "store w' 0 = Some p'" "prefix [0] (on_change_callbacks p')"
      "?invs = map ?f (on_change_callbacks p')"
    unfolding g by auto
  show ?thesis
    by (intro exI[of _ w'] exI[of _ p'] exI[of _ ?invs] conjI sv p' refl)
qed

lemma init_row_apply:
  "init_row r d cs m (r', c') =
     (if r' = r \<and> c' \<in> set cs \<and> m (r', c') = None then Some d else m (r', c'))"
  by (induction cs arbitrary: m) auto

lemma init_rows_apply:
  "init_rows rs cs d m (r', c') =
     (if r' \<in> set rs \<and> c' \<in> set cs \<and> m (r', c') = None then Some d else m (r', c'))"
  by (induction rs arbitrary: m) (auto simp: init_row_apply)

lemma new_parameter_values:
  "values_map (new_parameter nm pid rs cs ro k) (r, c) =
     (if 0 \<le> r \<and> r < rs \<and> 0 \<le> c \<and> c < cs then Some (default_val k) else None)"
  by (auto simp: new_parameter_def post_init_def init_rows_apply)

text \<open>
  Claim C9. \<open>set_value\<close> checks no bounds: for any integers \<open>row\<close> and \<open>col\<close>, in the
  grid or not, a write whose conversion succeeds returns without error and stores the
  converted, clamped value under \<open>(row, col)\<close>, and \<open>get_value\<close> reads it back (without
  notification for every behaviour and bound; with notification when the subscribers
  are passive). A cell outside the grid of a freshly built parameter reads \<open>None\<close>.
\<close>

theorem set_value_no_bounds_check:
  assumes "store w r = Some p" and "coerce ops (pclass p) v = Inr v'"
  shows "(\<exists>w' p'. set_value n ops beh w r row col v False = Some (Inr (w', [])) \<and>
            store w' r = Some p' \<and> get_value p' row col = v') \<and>
         ((\<forall>c \<in> set (on_change_callbacks p). passive_cb beh c) \<longrightarrow>
            (\<exists>w' invs p'. set_value (Suc (length (on_change_callbacks p))) ops beh w r row col v True =
                 Some (Inr (w', invs)) \<and>
               store w' r = Some p' \<and> get_value p' row col = v')) \<and>
         (\<not> (0 \<le> row \<and> row < rs \<and> 0 \<le> col \<and> col < cs) \<longrightarrow>
            get_value (new_parameter nm pid rs cs ro k :: 'a BaseParameter) row col = VNone)"
proof (intro conjI impI)
  let ?p1 = "p\<lparr>values_map := (values_map p)((row, col) \<mapsto> v')\<rparr>"
  have q: "\<not> (False \<and> py_ne ops (get_value p row col) v')" by simp
  have "set_value n ops beh w r row col v False = Some (Inr (put_param w r ?p1, []))"
    using assms base_set_value_quiet[OF assms(1) q] by (simp add: set_value_def)
  moreover have "store (put_param w r ?p1) r = Some ?p1" by (simp add: put_param_def)
  moreover have "get_value ?p1 row col = v'" by (simp add: get_value_def)
  ultimately show "\<exists>w' p'. set_value n ops beh w r row col v False = Some (Inr (w', [])) \<and>
            store w' r = Some p' \<and> get_value p' row col = v'"
    by blast
next
  assume pas: "\<forall>c \<in> set (on_change_callbacks p). passive_cb beh c"
  let ?p1 = "p\<lparr>values_map := (values_map p)((row, col) \<mapsto> v')\<rparr>"
  let ?n = "Suc (length (on_change_callbacks p))"
  have g: "get_value ?p1 row col = v'" by (simp add: get_value_def)
  show "\<exists>w' invs p'. set_value ?n ops beh w r row col v True = Some (Inr (w', invs)) \<and>
               store w' r = Some p' \<and> get_value p' row col = v'"
  proof (cases "py_ne ops (get_value p row col) v'")
    case True
    then have ch: "True \<and> py_ne ops (get_value p row col) v'" by simp
    have len: "length (on_change_callbacks p) < ?n" by simp
    from base_set_value_passive[OF assms(1) pas len ch] obtain w' where
      w': "base_set_value ?n ops beh w r row col v' True =
            Some (w', map (\<lambda>c. (c, row, col, v', get_value p row col)) (on_change_callbacks p))"
        "store w' = (store w)(r \<mapsto> ?p1)"
      by blast
    from w'(1) have "set_value ?n ops beh w r row col v True =
        Some (Inr (w', map (\<lambda>c. (c, row, col, v', get_value p row col)) (on_change_callbacks p)))"
      using assms by (simp add: set_value_def)
    moreover have "store w' r = Some ?p1" using w'(2) by simp
    ultimately show ?thesis using g by blast
  next
    case False
    then have q: "\<not> (True \<and> py_ne ops (get_value p row col) v')" by simp
    have "set_value ?n ops beh w r row col v True = Some (Inr (put_param w r ?p1, []))"
      using assms base_set_value_quiet[OF assms(1) q] by (simp add: set_value_def)
    moreover have "store (put_param w r ?p1) r = Some ?p1" by (simp add: put_param_def)
    ultimately show ?thesis using g by blast
  qed
next
  assume "\<not> (0 \<le> row \<and> row < rs \<and> 0 \<le> col \<and> col < cs)"
  then show "get_value (new_parameter nm pid rs cs ro k :: 'a BaseParameter) row col = VNone"
    by (auto simp add: get_value_def new_parameter_values)
qed

theorem set_value_no_bounds_check_witness:
  "(\<exists>w' p'. set_value 0 demo_ops emit_beh (demo_world [7]) 0 (-3) 12 (VInt 150) False = Some (Inr (w', [])) \<and>
       store w' 0 = Some p' \<and> get_value p' (-3) 12 = VInt 100) \<and>
   (\<exists>w' invs p'. set_value 2 demo_ops emit_beh (demo_world [7]) 0 (-3) 12 (VInt 150) True = Some (Inr (w', invs)) \<and>
       store w' 0 = Some p' \<and> get_value p' (-3) 12 = VInt 100) \<and>
   get_value (new_parameter ''level'' 1 1 1 False (IntP 0 100 0) :: rat BaseParameter) (-3) 12 = VNone"
proof -
  let ?p = "\<lparr>name = ''level'', param_id = 1, rows = 1, cols = 1, read_only = False,
       values_map = [(0, 0) \<mapsto> VInt 0], on_change_callbacks = [7], pclass = IntP 0 100 (0::int)\<rparr> :: rat BaseParameter"
  have co: "coerce demo_ops (pclass ?p) (VInt 150) = Inr (VInt 100)" by simp
  from set_value_no_bounds_check[OF demo_store co, where row="-3" and col=12 and n=0 and beh=emit_beh
      and rs=1 and cs=1 and nm="''level''" and pid=1 and ro=False and k="IntP 0 100 0"]
  show ?thesis by (simp add: emit_passive eval_nat_numeral)
qed



lemma new_parameter_fields:
  "pclass (new_parameter nm pid rs cs ro k) = k"
  "rows (new_parameter nm pid rs cs ro k) = rs"
  "cols (new_parameter nm pid rs cs ro k) = cs"
  "read_only (new_parameter nm pid rs cs ro k) = ro"
  "name (new_parameter nm pid rs cs ro k) = nm"
  "param_id (new_parameter nm pid rs cs ro k) = pid"
  "on_change_callbacks (new_parameter nm pid rs cs ro k) = []"
  by (simp_all add: new_parameter_def post_init_def)











lemma add_param_eval:
  "add_param nm rs cs k ro
     (\<lparr>store = s, next_ref = r, next_param_id = pid, events = es, logged_errors = le\<rparr>,
      \<lparr>comp_name = cn, parameters = ps, params_by_id = pb\<rparr>) =
   ((\<lparr>store = s(r \<mapsto> new_parameter nm pid rs cs ro k), next_ref = r + 1, next_param_id = pid + 1,
       events = es, logged_errors = le\<rparr>,
     \<lparr>comp_name = cn, parameters = AList.update nm r ps, params_by_id = AList.update pid r pb\<rparr>), r)"
  by (simp add: add_param_def Let_def)

lemma register_eval:
  "register \<lparr>store = s, next_ref = r, next_param_id = pid, events = es, logged_errors = le\<rparr> a c =
     (case s a of
        None \<Rightarrow> \<lparr>store = s, next_ref = r, next_param_id = pid, events = es, logged_errors = le\<rparr>
      | Some p \<Rightarrow> \<lparr>store = s(a \<mapsto> p\<lparr>on_change_callbacks := on_change_callbacks p @ [c]\<rparr>),
          next_ref = r, next_param_id = pid, events = es, logged_errors = le\<rparr>)"
  by (simp add: register_def on_change_def put_param_def split: option.splits)

lemmas hub_defs = demo_hub_def setup_broadcast_callbacks_def new_CentralHub_def
  NetworkActionsComponent_def ActionManagerComponent_def WatcherComponent_def WebServerComponent_def
  add_string_param_def add_int_param_def add_bool_param_def add_param_eval new_component_def
  empty_world_def register_eval new_parameter_fields
  cb_on_trigger_change_def cb_network_on_nicknames_change_def cb_on_action_to_send_change_def
  cb_action_on_nicknames_change_def cb_on_variables_change_def cb_broadcast_def
  NUM_NETWORK_ACTIONS_def NUM_WATCH_SLOTS_def

lemma demo_hub_eval:
  "demo_hub =
   \<lparr>hub_world =
      \<lparr>store = [
        0 \<mapsto> (new_parameter ''network_messages'' 1 100 1 False (StringP []))\<lparr>on_change_callbacks := [6]\<rparr>,
        1 \<mapsto> (new_parameter ''trigger'' 2 1 1 False (IntP (- 1) 99 (- 1)))\<lparr>on_change_callbacks := [0, 7]\<rparr>,
        2 \<mapsto> (new_parameter ''last_response'' 3 1 1 True (StringP []))\<lparr>on_change_callbacks := [8]\<rparr>,
        3 \<mapsto> (new_parameter ''device_nicknames'' 4 1 1 False (StringP ''{}''))\<lparr>on_change_callbacks := [1, 9]\<rparr>,
        4 \<mapsto> (new_parameter ''action_to_send'' 5 1 1 False (StringP []))\<lparr>on_change_callbacks := [2, 10]\<rparr>,
        5 \<mapsto> (new_parameter ''queue_length'' 6 1 1 True (IntP 0 999999 0))\<lparr>on_change_callbacks := [11]\<rparr>,
        6 \<mapsto> (new_parameter ''enabled'' 7 1 1 False (BoolP True))\<lparr>on_change_callbacks := [12]\<rparr>,
        7 \<mapsto> (new_parameter ''device_nicknames'' 8 1 1 False (StringP ''{}''))\<lparr>on_change_callbacks := [3, 13]\<rparr>,
        8 \<mapsto> (new_parameter ''variables'' 9 1 1 False (StringP ''{}''))\<lparr>on_change_callbacks := [4, 14]\<rparr>,
        9 \<mapsto> (new_parameter ''expressions'' 10 50 1 False (StringP []))\<lparr>on_change_callbacks := [15]\<rparr>,
        10 \<mapsto> (new_parameter ''rising_actions'' 11 50 1 False (StringP []))\<lparr>on_change_callbacks := [16]\<rparr>,
        11 \<mapsto> (new_parameter ''falling_actions'' 12 50 1 False (StringP []))\<lparr>on_change_callbacks := [17]\<rparr>,
        12 \<mapsto> (new_parameter ''enabled'' 13 1 1 False (BoolP True))\<lparr>on_change_callbacks := [18]\<rparr>,
        13 \<mapsto> (new_parameter ''eval_count'' 14 1 1 True (IntP 0 999999999 0))\<lparr>on_change_callbacks := [19]\<rparr>,
        14 \<mapsto> (new_parameter ''port'' 15 1 1 True (IntP 1 65535 80))\<lparr>on_change_callbacks := [20]\<rparr>,
        15 \<mapsto> (new_parameter ''local_ip'' 16 1 1 True (StringP ''127.0.0.1''))\<lparr>on_change_callbacks := [21]\<rparr>,
        16 \<mapsto> (new_parameter ''connected_clients'' 17 1 1 True (IntP 0 1000 0))\<lparr>on_change_callbacks := [22]\<rparr>,
        17 \<mapsto> (new_parameter ''total_messages'' 18 1 1 True (IntP 0 999999999 0))\<lparr>on_change_callbacks := [23]\<rparr>],
       next_ref = 18, next_param_id = 19, events = [], logged_errors = 0\<rparr>,
    local_components = [
       (''NetworkActions'', \<lparr>comp_name = ''NetworkActions'',
          parameters = [(''network_messages'', 0), (''trigger'', 1), (''last_response'', 2), (''device_nicknames'', 3)],
          params_by_id = [(1, 0), (2, 1), (3, 2), (4, 3)]\<rparr>),
       (''ActionManager'', \<lparr>comp_name = ''ActionManager'',
          parameters = [(''action_to_send'', 4), (''queue_length'', 5), (''enabled'', 6), (''device_nicknames'', 7)],
          params_by_id = [(5, 4), (6, 5), (7, 6), (8, 7)]\<rparr>),
       (''Watcher'', \<lparr>comp_name = ''Watcher'',
          parameters = [(''variables'', 8), (''expressions'', 9), (''rising_actions'', 10), (''falling_actions'', 11), (''enabled'', 12), (''eval_count'', 13)],
          params_by_id = [(9, 8), (10, 9), (11, 10), (12, 11), (13, 12), (14, 13)]\<rparr>),
       (''WebServer'', \<lparr>comp_name = ''WebServer'',
          parameters = [(''port'', 14), (''local_ip'', 15), (''connected_clients'', 16), (''total_messages'', 17)],
          params_by_id = [(15, 14), (16, 15), (17, 16), (18, 17)]\<rparr>)]\<rparr>"
  by (simp add: hub_defs eval_nat_numeral)



lemma type_alias_lookup:
  "get_param_by_type_and_index w cmpt ''string'' idx = get_param_by_type_and_index w cmpt ''str'' idx"
  by (simp add: get_param_by_type_and_index_def type_map_def lower_def lower_char_def)












text \<open>
  Claim C8 against the code. \<open>get_param_by_type_and_index\<close> maps \<open>string\<close> and
  \<open>str\<close> to the same type (lemma \<open>type_alias_lookup\<close>), but the handler of
  \<open>get_param_info\<close> compares the requested type with the type's value \<open>str\<close>: on the
  hub's ActionManager, which has two string parameters, it counts 2 for \<open>str\<close> and 0
  for \<open>string\<close>, and answers index 0 of \<open>string\<close> with an error.
\<close>

theorem get_param_info_rejects_string_alias:
  "handle_message 0 demo_ops emit_beh demo_hub (info_request ''ActionManager'' ''str'' (- 1)) =
     Some (demo_hub, Json [(''count'', VInt 2)]) \<and>
   handle_message 0 demo_ops emit_beh demo_hub (info_request ''ActionManager'' ''string'' (- 1)) =
     Some (demo_hub, Json [(''count'', VInt 0)]) \<and>
   handle_message 0 demo_ops emit_beh demo_hub (info_request ''ActionManager'' ''string'' 0) =
     Some (demo_hub, Json [(''error'', VStr ''index out of range'')]) \<and>
   map_option (name \<circ> the \<circ> store (hub_world demo_hub))
     (get_param_by_type_and_index (hub_world demo_hub) (the (map_of (local_components demo_hub) ''ActionManager''))
        ''string'' 0) = Some ''action_to_send'' \<and>
   map_option (name \<circ> the \<circ> store (hub_world demo_hub))
     (get_param_by_type_and_index (hub_world demo_hub) (the (map_of (local_components demo_hub) ''ActionManager''))
        ''str'' 0) = Some ''action_to_send''"
  by (simp add: handle_message_def handle_get_param_info_def info_request_def truthy_def Let_def
      typed_params_def List.map_filter_simps demo_hub_eval new_parameter_fields
      get_param_by_type_and_index_def type_map_def lower_def lower_char_def)










lemma removeAll_empty: "removeAll x xs = [] \<longleftrightarrow> set xs \<subseteq> {x}"
  by (induction xs) auto

lemma members_discard:
  "members (discard_subscriber ps key ws) k =
     (if k = key then members ps key - {ws} else members ps k)"
  by (auto simp: members_def discard_subscriber_def removeAll_empty split: option.splits)

lemma nonempty_discard:
  assumes "\<And>k. ps k \<noteq> Some []"
  shows "discard_subscriber ps key ws k \<noteq> Some []"
proof (cases "ps key")
  case None
  then show ?thesis using assms[of k] by (simp add: discard_subscriber_def)
next
  case (Some cs)
  show ?thesis
  proof (cases "k = key")
    case True
    then show ?thesis using Some by (simp add: discard_subscriber_def)
  next
    case False
    then have "discard_subscriber ps key ws k = ps k" using Some by (simp add: discard_subscriber_def)
    then show ?thesis using assms[of k] by simp
  qed
qed

lemma members_fold_discard:
  "members (fold (\<lambda>key ps. discard_subscriber ps key ws) ks ps) k =
     (if k \<in> set ks then members ps k - {ws} else members ps k)"
proof (induction ks arbitrary: ps)
  case Nil
  then show ?case by simp
next
  case (Cons a ks)
  show ?case by (auto simp: Cons.IH members_discard)
qed

lemma nonempty_fold_discard:
  "(\<And>k. ps k \<noteq> Some []) \<Longrightarrow> fold (\<lambda>key ps. discard_subscriber ps key ws) ks ps k \<noteq> Some []"
proof (induction ks arbitrary: ps)
  case Nil
  then show ?case by simp
next
  case (Cons a ks)
  have "fold (\<lambda>key ps. discard_subscriber ps key ws) ks (discard_subscriber ps a ws) k \<noteq> Some []"
    by (rule Cons.IH) (rule nonempty_discard, rule Cons.prems)
  then show ?case by simp
qed

lemma consistent_new: "consistent new_SubscriptionManager"
  by (simp add: consistent_def new_SubscriptionManager_def members_def)

lemma consistent_subscribe:
  assumes "consistent m"
  shows "consistent (subscribe m ws pid row col)"
proof -
  have a: "\<And>w k. w \<in> members (param_subscribers m) k \<longleftrightarrow> k \<in> members (subscriptions m) w"
    and b: "\<And>k. param_subscribers m k \<noteq> Some []"
    using assms unfolding consistent_def by blast+
  have ms: "\<And>w. members (subscriptions (subscribe m ws pid row col)) w =
      (if w = ws then insert (pid, row, col) (members (subscriptions m) ws) else members (subscriptions m) w)"
    by (auto simp: subscribe_def members_def Let_def split: option.splits)
  have mp: "\<And>k. members (param_subscribers (subscribe m ws pid row col)) k =
      (if k = (pid, row, col) then insert ws (members (param_subscribers m) k) else members (param_subscribers m) k)"
    by (auto simp: subscribe_def members_def Let_def split: option.splits)
  have ne: "\<And>k. param_subscribers (subscribe m ws pid row col) k \<noteq> Some []"
    using b by (auto simp: subscribe_def Let_def List.insert_def split: option.splits)
  show ?thesis unfolding consistent_def
  proof (intro conjI allI)
    fix w k
    show "w \<in> members (param_subscribers (subscribe m ws pid row col)) k \<longleftrightarrow>
          k \<in> members (subscriptions (subscribe m ws pid row col)) w"
      unfolding ms mp using a by auto
  next
    fix k show "param_subscribers (subscribe m ws pid row col) k \<noteq> Some []" by (rule ne)
  qed
qed

lemma consistent_unsubscribe:
  assumes "consistent m"
  shows "consistent (unsubscribe m ws pid row col)"
proof -
  have a: "\<And>w k. w \<in> members (param_subscribers m) k \<longleftrightarrow> k \<in> members (subscriptions m) w"
    and b: "\<And>k. param_subscribers m k \<noteq> Some []"
    using assms unfolding consistent_def by blast+
  have ms: "\<And>w. members (subscriptions (unsubscribe m ws pid row col)) w =
      (if w = ws then members (subscriptions m) ws - {(pid, row, col)} else members (subscriptions m) w)"
    by (auto simp: unsubscribe_def members_def Let_def split: option.splits)
  have mp: "\<And>k. members (param_subscribers (unsubscribe m ws pid row col)) k =
      (if k = (pid, row, col) then members (param_subscribers m) k - {ws} else members (param_subscribers m) k)"
    by (simp add: unsubscribe_def Let_def members_discard)
  have ne: "\<And>k. param_subscribers (unsubscribe m ws pid row col) k \<noteq> Some []"
    using nonempty_discard[OF b] by (simp add: unsubscribe_def Let_def del: split_paired_All)
  show ?thesis unfolding consistent_def
  proof (intro conjI allI)
    fix w k
    show "w \<in> members (param_subscribers (unsubscribe m ws pid row col)) k \<longleftrightarrow>
          k \<in> members (subscriptions (unsubscribe m ws pid row col)) w"
      unfolding ms mp using a by auto
  next
    fix k show "param_subscribers (unsubscribe m ws pid row col) k \<noteq> Some []" by (rule ne)
  qed
qed

lemma consistent_remove_client:
  assumes "consistent m"
  shows "consistent (remove_client m ws)"
proof (cases "subscriptions m ws")
  case None
  then show ?thesis using assms by (simp add: remove_client_def)
next
  case (Some ks)
  have a: "\<And>w k. w \<in> members (param_subscribers m) k \<longleftrightarrow> k \<in> members (subscriptions m) w"
    and b: "\<And>k. param_subscribers m k \<noteq> Some []"
    using assms unfolding consistent_def by blast+
  have ks: "members (subscriptions m) ws = set ks" using Some by (simp add: members_def)
  have ms: "\<And>w. members (subscriptions (remove_client m ws)) w =
      (if w = ws then {} else members (subscriptions m) w)"
    using Some by (simp add: remove_client_def members_def)
  have mp: "\<And>k. members (param_subscribers (remove_client m ws)) k =
      (if k \<in> set ks then members (param_subscribers m) k - {ws} else members (param_subscribers m) k)"
    using Some by (simp add: remove_client_def members_fold_discard)
  have ne: "\<And>k. param_subscribers (remove_client m ws) k \<noteq> Some []"
    using nonempty_fold_discard[OF b] Some by (simp add: remove_client_def)
  show ?thesis unfolding consistent_def
  proof (intro conjI allI)
    fix w k
    show "w \<in> members (param_subscribers (remove_client m ws)) k \<longleftrightarrow>
          k \<in> members (subscriptions (remove_client m ws)) w"
      unfolding ms mp using a[of w k] a[of ws k] ks by auto
  next
    fix k show "param_subscribers (remove_client m ws) k \<noteq> Some []" by (rule ne)
  qed
qed

lemma consistent_step: "consistent m \<Longrightarrow> consistent (sub_step c m)"
  by (cases c) (simp_all add: consistent_subscribe consistent_unsubscribe consistent_remove_client)

lemma consistent_fold: "consistent m \<Longrightarrow> consistent (fold sub_step calls m)"
  by (induction calls arbitrary: m) (simp_all add: consistent_step)

lemma consistent_run: "consistent (sub_run calls)"
  unfolding sub_run_def by (rule consistent_fold[OF consistent_new])

text \<open>
  Claim C10. After every sequence of \<open>subscribe\<close>, \<open>unsubscribe\<close> and \<open>remove_client\<close>
  calls on a new manager, a client is in the set that \<open>_param_subscribers\<close> holds for a
  key (\<open>get_subscribers\<close>) exactly if the key is in the set that \<open>_subscriptions\<close> holds
  for the client, and \<open>_param_subscribers\<close> holds no empty set.
\<close>

theorem subscription_maps_consistent:
  "(ws \<in> set (get_subscribers (sub_run calls) pid row col) \<longleftrightarrow>
      (pid, row, col) \<in> members (subscriptions (sub_run calls)) ws) \<and>
   param_subscribers (sub_run calls) key \<noteq> Some []"
proof -
  have c: "consistent (sub_run calls)" by (rule consistent_run)
  have "set (get_subscribers (sub_run calls) pid row col) =
        members (param_subscribers (sub_run calls)) (pid, row, col)"
    by (simp add: get_subscribers_def members_def split: option.splits)
  with c show ?thesis unfolding consistent_def by blast
qed

theorem subscription_maps_consistent_witness:
  "get_subscribers (sub_run [Subscribe (3::nat) 1 0 0, Subscribe 4 1 0 0, Subscribe 4 2 0 0,
      Unsubscribe 3 1 0 0, RemoveClient 4]) 1 0 0 = [] \<and>
   (1, 0, 0) \<notin> members (subscriptions (sub_run [Subscribe (3::nat) 1 0 0, Subscribe 4 1 0 0, Subscribe 4 2 0 0,
      Unsubscribe 3 1 0 0, RemoveClient 4])) 3 \<and>
   param_subscribers (sub_run [Subscribe (3::nat) 1 0 0, Subscribe 4 1 0 0, Subscribe 4 2 0 0,
      Unsubscribe 3 1 0 0, RemoveClient 4]) (1, 0, 0) = None"
proof -
  let ?m = "sub_run [Subscribe (3::nat) 1 0 0, Subscribe 4 1 0 0, Subscribe 4 2 0 0,
      Unsubscribe 3 1 0 0, RemoveClient 4]"
  have g: "param_subscribers ?m (1, 0, 0) = None"
    by (simp add: sub_run_def new_SubscriptionManager_def subscribe_def unsubscribe_def
        remove_client_def discard_subscriber_def Let_def)
  then have "get_subscribers ?m 1 0 0 = []" by (simp add: get_subscribers_def)
  with subscription_maps_consistent[of 3 "[Subscribe (3::nat) 1 0 0, Subscribe 4 1 0 0, Subscribe 4 2 0 0,
      Unsubscribe 3 1 0 0, RemoveClient 4]" 1 0 0 "(1, 0, 0)"] g
  show ?thesis by simp
qed

end
